theory Spec2Isabelle
  imports Main
begin

section \<open>Go values shared by the packages\<close>

text \<open>
  A Go \<^verbatim>\<open>error\<close> value is a message; a call returning \<^verbatim>\<open>(x, err)\<close> is a sum, with
  \<open>Inl\<close> for \<^verbatim>\<open>err != nil\<close>. Go's \<^verbatim>\<open>int\<close> is the 64-bit two's complement integer of the
  deployed platform: arithmetic on it is written on \<open>int\<close> with the wrap-around
  \<open>int64\<close> applied to each result that can leave the range.
\<close>

datatype go_error = Error string

definition int64 :: "int \<Rightarrow> int" where
  "int64 x = (x + 2 ^ 63) mod 2 ^ 64 - 2 ^ 63"

text \<open>
  A \<^verbatim>\<open>time.Time\<close> is the number of nanoseconds since the zero time, a
  \<^verbatim>\<open>time.Duration\<close> a number of nanoseconds in the int64 range. \<^verbatim>\<open>t.Sub(u)\<close> saturates at
  the largest and smallest duration.
\<close>

definition Second :: int where
  "Second = 1000000000"

definition Hour :: int where
  "Hour = 3600 * Second"

definition Sub :: "int \<Rightarrow> int \<Rightarrow> int" where
  "Sub t u = (if t - u > 2 ^ 63 - 1 then 2 ^ 63 - 1
              else if t - u < - (2 ^ 63) then - (2 ^ 63) else t - u)"

text \<open>
  \<^verbatim>\<open>int(d.Seconds())\<close>. \<^verbatim>\<open>Seconds\<close> is the float64 sum \<^verbatim>\<open>float64(sec) + float64(nsec)/1e9\<close>
  of the truncated quotient and remainder of \<open>d\<close> by one second, and the conversion to
  \<^verbatim>\<open>int\<close> cuts the fraction off towards zero. For a duration below \<open>2 ^ 24\<close> seconds (194
  days) the doubles around the sum are close enough for the result to be the quotient
  itself. From \<open>2 ^ 24\<close> seconds on the sum can round to the next whole number (for
  16777216999999999 ns it is 16777217.0), so the result is the quotient or the quotient
  and one more, away from zero; which of the two is not derived here: \<open>rounds_up\<close> is
  the parameter that tells, for every such duration, whether the float sum rounds up.
\<close>

definition whole_seconds :: "(int \<Rightarrow> bool) \<Rightarrow> int \<Rightarrow> int" where
  "whole_seconds rounds_up d =
     (if 0 \<le> d
      then d div Second + (if 2 ^ 24 * Second \<le> d \<and> rounds_up d then 1 else 0)
      else - ((- d) div Second) - (if 2 ^ 24 * Second \<le> - d \<and> rounds_up d then 1 else 0))"

section \<open>middleware: the token-bucket rate limiter (ratelimit.go)\<close>

record RateLimiter =
  rate :: int
  burst :: int
  tokens :: "string \<rightharpoonup> int"
  lastRefill :: "string \<rightharpoonup> int"

definition NewRateLimiter :: "int \<Rightarrow> int \<Rightarrow> RateLimiter" where
  "NewRateLimiter r b = \<lparr>rate = r, burst = b, tokens = Map.empty, lastRefill = Map.empty\<rparr>"

definition min_int :: "int \<Rightarrow> int \<Rightarrow> int" where
  "min_int a b = (if a < b then a else b)"

text \<open>Reading a Go map at a key it does not hold gives the zero value.\<close>

definition tokens_at :: "RateLimiter \<Rightarrow> string \<Rightarrow> int" where
  "tokens_at rl key = (case tokens rl key of None \<Rightarrow> 0 | Some n \<Rightarrow> n)"

text \<open>
  The refill step of \<^verbatim>\<open>Allow\<close> for a key seen before (\<open>prev\<close> is its entry of
  \<^verbatim>\<open>lastRefill\<close>): \<^verbatim>\<open>tokensToAdd := int(now.Sub(lastRefill).Seconds()) * rl.rate\<close>, and the
  update under \<^verbatim>\<open>if tokensToAdd > 0\<close>.
\<close>

definition tokensToAdd :: "(int \<Rightarrow> bool) \<Rightarrow> RateLimiter \<Rightarrow> int \<Rightarrow> int \<Rightarrow> int" where
  "tokensToAdd rounds_up rl now prev =
     int64 (whole_seconds rounds_up (Sub now prev) * rate rl)"

definition refill :: "(int \<Rightarrow> bool) \<Rightarrow> RateLimiter \<Rightarrow> int \<Rightarrow> string \<Rightarrow> int \<Rightarrow> RateLimiter" where
  "refill rounds_up rl now key prev =
     (if tokensToAdd rounds_up rl now prev > 0
      then rl\<lparr>tokens := (tokens rl)(key \<mapsto>
                  min_int (int64 (tokens_at rl key + tokensToAdd rounds_up rl now prev))
                    (burst rl)),
              lastRefill := (lastRefill rl)(key \<mapsto> now)\<rparr>
      else rl)"

text \<open>
  \<^verbatim>\<open>Allow(key)\<close> runs under the limiter's mutex, so a call is one step on the limiter's
  state; \<open>now\<close> is the reading of \<^verbatim>\<open>time.Now()\<close> the call takes.
\<close>

definition Allow :: "(int \<Rightarrow> bool) \<Rightarrow> RateLimiter \<Rightarrow> int \<Rightarrow> string \<Rightarrow> bool \<times> RateLimiter" where
  "Allow rounds_up rl now key =
     (case lastRefill rl key of
        None \<Rightarrow>
          (True, rl\<lparr>tokens := (tokens rl)(key \<mapsto> burst rl),
                    lastRefill := (lastRefill rl)(key \<mapsto> now)\<rparr>)
      | Some prev \<Rightarrow>
          (let rl1 = refill rounds_up rl now key prev in
           if tokens_at rl1 key > 0
           then (True, rl1\<lparr>tokens := (tokens rl1)(key \<mapsto> tokens_at rl1 key - 1)\<rparr>)
           else (False, rl1)))"

text \<open>Consecutive calls of \<^verbatim>\<open>Allow\<close> for one key, at the given clock readings.\<close>

fun Allow_calls ::
  "(int \<Rightarrow> bool) \<Rightarrow> RateLimiter \<Rightarrow> string \<Rightarrow> int list \<Rightarrow> bool list \<times> RateLimiter" where
  "Allow_calls rounds_up rl key [] = ([], rl)"
| "Allow_calls rounds_up rl key (now # nows) =
     (case Allow rounds_up rl now key of
        (ok, rl1) \<Rightarrow>
          (case Allow_calls rounds_up rl1 key nows of (oks, rl2) \<Rightarrow> (ok # oks, rl2)))"

text \<open>A limiter that has seen one client, whose bucket is empty since the reading 0.\<close>

definition empty_bucket :: RateLimiter where
  "empty_bucket =
     \<lparr>rate = 100, burst = 200, tokens = [''10.0.0.1:40000'' \<mapsto> 0],
      lastRefill = [''10.0.0.1:40000'' \<mapsto> 0]\<rparr>"

text \<open>
  The refill the specification asks for, in its words: tokens grow by the elapsed seconds
  times the rate, clamped at the burst (here in whole tokens of the elapsed nanoseconds).
\<close>

definition spec_proportional_tokens :: "RateLimiter \<Rightarrow> int \<Rightarrow> string \<Rightarrow> int \<Rightarrow> int" where
  "spec_proportional_tokens rl now key prev =
     min_int (tokens_at rl key + (Sub now prev * rate rl) div Second) (burst rl)"
section \<open>handlers: HTTP responses\<close>

text \<open>
  What a handler leaves in its \<^verbatim>\<open>http.ResponseWriter\<close>: the status code, the
  \<^verbatim>\<open>Content-Type\<close> header and the body. \<^verbatim>\<open>http.Error(w, msg, code)\<close> writes \<open>code\<close> and the
  message as a line of plain text. A handler that writes a body without calling
  \<^verbatim>\<open>WriteHeader\<close> sends status 200: net/http writes \<^verbatim>\<open>http.StatusOK\<close> before the first byte.
\<close>

record 'b http_response =
  status :: nat
  content_type :: string
  body :: 'b

datatype purchase_body =
  PlainText string
  | PurchaseJSON (success: bool) (purchase_id: string) (message: string)

definition http_Error :: "string \<Rightarrow> nat \<Rightarrow> purchase_body http_response" where
  "http_Error msg code =
     \<lparr>status = code, content_type = ''text/plain; charset=utf-8'',
      body = PlainText (msg @ [CHR 0x0A])\<rparr>"

section \<open>handlers: GET /health (health.go)\<close>

record health =
  Status :: string
  Timestamp :: int
  Database :: string
  Redis :: string

text \<open>
  \<open>db_Ping\<close> and \<open>redis_Ping\<close> are what \<^verbatim>\<open>db.Ping()\<close> and \<^verbatim>\<open>redisClient.Ping()\<close> return
  (\<open>None\<close> for \<^verbatim>\<open>nil\<close>), \<open>unix_now\<close> is \<^verbatim>\<open>time.Now().Unix()\<close>. The handler never calls
  \<^verbatim>\<open>WriteHeader\<close> or \<^verbatim>\<open>http.Error\<close>.
\<close>

definition HealthCheck :: "go_error option \<Rightarrow> go_error option \<Rightarrow> int \<Rightarrow> health http_response" where
  "HealthCheck db_Ping redis_Ping unix_now =
     (let h0 = \<lparr>Status = ''OK'', Timestamp = unix_now, Database = ''OK'', Redis = ''OK''\<rparr>;
          h1 = (case db_Ping of
                  Some err \<Rightarrow> h0\<lparr>Status := ''ERROR'', Database := ''ERROR''\<rparr>
                | None \<Rightarrow> h0);
          h2 = (case redis_Ping of
                  Some err \<Rightarrow> h1\<lparr>Status := ''ERROR'', Redis := ''ERROR''\<rparr>
                | None \<Rightarrow> h1)
      in \<lparr>status = 200, content_type = ''application/json'', body = h2\<rparr>)"

section \<open>handlers: POST /purchase (purchase.go)\<close>

text \<open>
  The durable store as far as a purchase touches it: the rows of the table
  \<^verbatim>\<open>purchases\<close>.
\<close>

record purchase_row =
  row_purchase_id :: string
  row_sale_id :: string
  row_user_id :: string
  row_item_id :: string
  row_code :: string

type_synonym database = "purchase_row list"

text \<open>
  \<^verbatim>\<open>recordPurchase\<close> is the placeholder of the source: it returns one fixed id and
  \<^verbatim>\<open>nil\<close>, and does not use \<^verbatim>\<open>db\<close>.
\<close>

definition recordPurchase :: "database \<Rightarrow> string \<Rightarrow> string \<Rightarrow> (go_error + string) \<times> database" where
  "recordPurchase db userID itemID = (Inr ''purchase_a1b2c3d4e5f6g7h8'', db)"

text \<open>
  The handler calls \<^verbatim>\<open>redis.GetCheckoutSession\<close> and \<^verbatim>\<open>redis.DecrementInventory\<close>, whose
  package is not among the sources: they are the parameters \<open>getSession\<close> and
  \<open>decrInventory\<close>, each a step on the coordinator's state \<open>'r\<close> that returns the
  call's result. \<open>checkoutCode\<close> is the \<^verbatim>\<open>code\<close> query parameter (empty when absent). The
  handler's state is the database and the coordinator.
\<close>

definition PurchaseHandler ::
  "('r \<Rightarrow> string \<Rightarrow> (go_error + string \<times> string) \<times> 'r) \<Rightarrow>
   ('r \<Rightarrow> string \<Rightarrow> (go_error + bool) \<times> 'r) \<Rightarrow>
   database \<times> 'r \<Rightarrow> string \<Rightarrow> purchase_body http_response \<times> (database \<times> 'r)" where
  "PurchaseHandler getSession decrInventory st checkoutCode =
     (case st of (db, r) \<Rightarrow>
      if checkoutCode = [] then (http_Error ''Missing checkout code'' 400, (db, r))
      else
        (case getSession r checkoutCode of
           (Inl err, r1) \<Rightarrow> (http_Error ''Invalid or expired checkout code'' 400, (db, r1))
         | (Inr (userID, itemID), r1) \<Rightarrow>
             (case decrInventory r1 itemID of
                (Inl err, r2) \<Rightarrow> (http_Error ''Error processing purchase'' 500, (db, r2))
              | (Inr decremented, r2) \<Rightarrow>
                  if \<not> decremented then (http_Error ''Item sold out'' 409, (db, r2))
                  else
                    (case recordPurchase db userID itemID of
                       (Inl err, db1) \<Rightarrow>
                         (http_Error ''Error recording purchase'' 500, (db1, r2))
                     | (Inr purchaseID, db1) \<Rightarrow>
                         (\<lparr>status = 200, content_type = ''application/json'',
                           body = PurchaseJSON True purchaseID
                                    ''Purchase completed successfully''\<rparr>,
                          (db1, r2))))))"

subsection \<open>The coordinator behind the handler\<close>

text \<open>
  The keys of the coordinator: \<^verbatim>\<open>checkout:{code}\<close> (the session: user and item),
  \<^verbatim>\<open>sale:{sale_id}:inventory\<close> and \<^verbatim>\<open>sale:{sale_id}:user:{user_id}:count\<close>; \<open>reachable\<close>
  tells whether the connection answers.
\<close>

record coordinator =
  sessions :: "string \<rightharpoonup> string \<times> string"
  inventory :: "string \<rightharpoonup> int"
  user_count :: "string \<times> string \<rightharpoonup> int"
  reachable :: bool

text \<open>A counter that is not set reads as 0, as in Redis.\<close>

definition inventory_at :: "coordinator \<Rightarrow> string \<Rightarrow> int" where
  "inventory_at r sale = (case inventory r sale of None \<Rightarrow> 0 | Some n \<Rightarrow> n)"

definition user_count_at :: "coordinator \<Rightarrow> string \<Rightarrow> string \<Rightarrow> int" where
  "user_count_at r sale user = (case user_count r (sale, user) of None \<Rightarrow> 0 | Some n \<Rightarrow> n)"

text \<open>
  Modelled from the spec: \<^verbatim>\<open>redis.GetCheckoutSession\<close> (package \<^verbatim>\<open>internal/redis\<close> is not
  among the sources). The coordinator's keyed session record has the operations
  set-if-absent, get and delete; this is the get: "Look up session by code. If
  missing/expired/already-redeemed: InvalidOrExpiredCode", and a coordinator that cannot
  be reached is an error too.
\<close>

definition GetCheckoutSession :: "coordinator \<Rightarrow> string \<Rightarrow> (go_error + string \<times> string) \<times> coordinator" where
  "GetCheckoutSession r code =
     (if \<not> reachable r then (Inl (Error ''coordinator unavailable''), r)
      else case sessions r code of
             None \<Rightarrow> (Inl (Error ''checkout session not found''), r)
           | Some (userID, itemID) \<Rightarrow> (Inr (userID, itemID), r))"

text \<open>
  Modelled from the spec: \<^verbatim>\<open>redis.DecrementInventory\<close> (package \<^verbatim>\<open>internal/redis\<close> is not
  among the sources). "Decrement the sale_id inventory counter; if result < 0, revert and
  return SoldOut", as one server-evaluated step. The handler passes the item id;
  \<open>sale_of\<close> gives the sale an item belongs to ("an item belongs to exactly one sale").
\<close>

definition DecrementInventory ::
  "(string \<Rightarrow> string) \<Rightarrow> coordinator \<Rightarrow> string \<Rightarrow> (go_error + bool) \<times> coordinator" where
  "DecrementInventory sale_of r itemID =
     (if \<not> reachable r then (Inl (Error ''coordinator unavailable''), r)
      else if inventory_at r (sale_of itemID) - 1 < 0 then (Inr False, r)
      else (Inr True,
            r\<lparr>inventory := (inventory r)(sale_of itemID \<mapsto> inventory_at r (sale_of itemID) - 1)\<rparr>))"

text \<open>The handler on this coordinator, and requests served one after the other.\<close>

definition Purchase ::
  "(string \<Rightarrow> string) \<Rightarrow> database \<times> coordinator \<Rightarrow> string \<Rightarrow>
   purchase_body http_response \<times> (database \<times> coordinator)" where
  "Purchase sale_of = PurchaseHandler GetCheckoutSession (DecrementInventory sale_of)"

fun serve ::
  "(string \<Rightarrow> string) \<Rightarrow> database \<times> coordinator \<Rightarrow> string list \<Rightarrow>
   purchase_body http_response list \<times> (database \<times> coordinator)" where
  "serve sale_of st [] = ([], st)"
| "serve sale_of st (code # codes) =
     (case Purchase sale_of st code of
        (resp, st1) \<Rightarrow> (case serve sale_of st1 codes of (resps, st2) \<Rightarrow> (resp # resps, st2)))"

text \<open>
  The number of requests of such a run that are answered 200 for an item of the sale
  \<open>sale\<close>: the purchases of the sale that succeed.
\<close>

fun sold :: "(string \<Rightarrow> string) \<Rightarrow> string \<Rightarrow> database \<times> coordinator \<Rightarrow> string list \<Rightarrow> nat" where
  "sold sale_of sale st [] = 0"
| "sold sale_of sale st (code # codes) =
     (case Purchase sale_of st code of
        (resp, st1) \<Rightarrow>
          (if status resp = 200 \<and>
              (case sessions (snd st) code of
                 None \<Rightarrow> False
               | Some (userID, itemID) \<Rightarrow> sale_of itemID = sale)
           then 1 else 0) + sold sale_of sale st1 codes)"

subsection \<open>The handler step by step\<close>

text \<open>
  Requests are served by goroutines of their own, so the calls of one request to the
  coordinator and the database can be separated by calls of other requests. Here the
  handler is cut at these calls: a request is at the point of its next call, or
  answered.
\<close>

datatype handler_point =
    At_GetCheckoutSession string
  | At_DecrementInventory string string
  | At_recordPurchase string string
  | Answered "purchase_body http_response"

text \<open>The handler up to its first call: a missing code is answered at once.\<close>

definition handler_enter :: "string \<Rightarrow> handler_point" where
  "handler_enter checkoutCode =
     (if checkoutCode = [] then Answered (http_Error ''Missing checkout code'' 400)
      else At_GetCheckoutSession checkoutCode)"

text \<open>One call of a request and what the handler does with its result.\<close>

definition handler_step ::
  "('r \<Rightarrow> string \<Rightarrow> (go_error + string \<times> string) \<times> 'r) \<Rightarrow>
   ('r \<Rightarrow> string \<Rightarrow> (go_error + bool) \<times> 'r) \<Rightarrow>
   database \<times> 'r \<Rightarrow> handler_point \<Rightarrow> handler_point \<times> (database \<times> 'r)" where
  "handler_step getSession decrInventory st pt =
     (case st of (db, r) \<Rightarrow>
      case pt of
        At_GetCheckoutSession checkoutCode \<Rightarrow>
          (case getSession r checkoutCode of
             (Inl err, r1) \<Rightarrow>
               (Answered (http_Error ''Invalid or expired checkout code'' 400), (db, r1))
           | (Inr (userID, itemID), r1) \<Rightarrow> (At_DecrementInventory userID itemID, (db, r1)))
      | At_DecrementInventory userID itemID \<Rightarrow>
          (case decrInventory r itemID of
             (Inl err, r2) \<Rightarrow> (Answered (http_Error ''Error processing purchase'' 500), (db, r2))
           | (Inr decremented, r2) \<Rightarrow>
               if \<not> decremented then (Answered (http_Error ''Item sold out'' 409), (db, r2))
               else (At_recordPurchase userID itemID, (db, r2)))
      | At_recordPurchase userID itemID \<Rightarrow>
          (case recordPurchase db userID itemID of
             (Inl err, db1) \<Rightarrow> (Answered (http_Error ''Error recording purchase'' 500), (db1, r))
           | (Inr purchaseID, db1) \<Rightarrow>
               (Answered \<lparr>status = 200, content_type = ''application/json'',
                          body = PurchaseJSON True purchaseID
                                   ''Purchase completed successfully''\<rparr>,
                (db1, r)))
      | Answered resp \<Rightarrow> (Answered resp, (db, r)))"

text \<open>One request taking \<open>n\<close> steps with no other request in between.\<close>

fun handler_steps ::
  "('r \<Rightarrow> string \<Rightarrow> (go_error + string \<times> string) \<times> 'r) \<Rightarrow>
   ('r \<Rightarrow> string \<Rightarrow> (go_error + bool) \<times> 'r) \<Rightarrow>
   nat \<Rightarrow> handler_point \<times> (database \<times> 'r) \<Rightarrow> handler_point \<times> (database \<times> 'r)" where
  "handler_steps getSession decrInventory 0 cfg = cfg"
| "handler_steps getSession decrInventory (Suc n) cfg =
     (case cfg of (pt, st) \<Rightarrow>
        handler_steps getSession decrInventory n (handler_step getSession decrInventory st pt))"

text \<open>
  Requests in flight, each with the code it came with, and a schedule: the request that
  takes the next step, one after the other (a number that names no request is skipped).
\<close>

fun interleave ::
  "('r \<Rightarrow> string \<Rightarrow> (go_error + string \<times> string) \<times> 'r) \<Rightarrow>
   ('r \<Rightarrow> string \<Rightarrow> (go_error + bool) \<times> 'r) \<Rightarrow>
   (string \<times> handler_point) list \<times> (database \<times> 'r) \<Rightarrow> nat list \<Rightarrow>
   (string \<times> handler_point) list \<times> (database \<times> 'r)" where
  "interleave getSession decrInventory cfg [] = cfg"
| "interleave getSession decrInventory cfg (i # schedule) =
     (case cfg of (pool, st) \<Rightarrow>
        if i < length pool
        then (case handler_step getSession decrInventory st (snd (pool ! i)) of
                (pt, st1) \<Rightarrow>
                  interleave getSession decrInventory
                    (pool[i := (fst (pool ! i), pt)], st1) schedule)
        else interleave getSession decrInventory (pool, st) schedule)"

text \<open>The requests for a list of codes, none of which has made a call yet.\<close>

definition arrive :: "string list \<Rightarrow> (string \<times> handler_point) list" where
  "arrive codes = map (\<lambda>code. (code, handler_enter code)) codes"

text \<open>
  Whether the session of a code is for an item of the sale, and a request's purchase of
  the sale: 1 when the request of such a code is answered 200.
\<close>

definition in_sale :: "(string \<Rightarrow> string) \<Rightarrow> string \<Rightarrow> (string \<rightharpoonup> string \<times> string) \<Rightarrow> string \<Rightarrow> bool" where
  "in_sale sale_of sale ss code =
     (case ss code of None \<Rightarrow> False | Some (userID, itemID) \<Rightarrow> sale_of itemID = sale)"

definition purchased :: "(string \<Rightarrow> string) \<Rightarrow> string \<Rightarrow> (string \<rightharpoonup> string \<times> string) \<Rightarrow> string \<times> handler_point \<Rightarrow> int" where
  "purchased sale_of sale ss e =
     (case e of (code, pt) \<Rightarrow>
        if in_sale sale_of sale ss code \<and>
           (case pt of Answered resp \<Rightarrow> status resp = 200 | _ \<Rightarrow> False)
        then 1 else 0)"

text \<open>
  What holds of a request at each point: it looks up the code it came with, and the
  user and item it carries are those of that code's session.
\<close>

definition consistent :: "(string \<rightharpoonup> string \<times> string) \<Rightarrow> string \<times> handler_point \<Rightarrow> bool" where
  "consistent ss e =
     (case e of (code, pt) \<Rightarrow>
        case pt of
          At_GetCheckoutSession c \<Rightarrow> c = code
        | At_DecrementInventory userID itemID \<Rightarrow> ss code = Some (userID, itemID)
        | At_recordPurchase userID itemID \<Rightarrow> ss code = Some (userID, itemID)
        | Answered resp \<Rightarrow> True)"

text \<open>
  A request holds an item of the sale once its decrement has succeeded: when it is about
  to record the purchase, or answered 200.
\<close>

definition holding :: "(string \<Rightarrow> string) \<Rightarrow> string \<Rightarrow> (string \<rightharpoonup> string \<times> string) \<Rightarrow> string \<times> handler_point \<Rightarrow> int" where
  "holding sale_of sale ss e =
     (case e of (code, pt) \<Rightarrow>
        if in_sale sale_of sale ss code \<and>
           (case pt of
              Answered resp \<Rightarrow> status resp = 200
            | At_recordPurchase userID itemID \<Rightarrow> True
            | _ \<Rightarrow> False)
        then 1 else 0)"

text \<open>
  A coordinator for the examples: two pending sessions for items of the sale \<open>s1\<close>, three
  items left, and the user \<open>u1\<close> at the cap of 10 purchases.
\<close>

definition shop :: coordinator where
  "shop =
     \<lparr>sessions = [''K1'' \<mapsto> (''u1'', ''I1''), ''K2'' \<mapsto> (''u2'', ''I2'')],
      inventory = [''s1'' \<mapsto> 3],
      user_count = [(''s1'', ''u1'') \<mapsto> 10],
      reachable = True\<rparr>"

definition sale_s1 :: "string \<Rightarrow> string" where
  "sale_s1 itemID = ''s1''"

text \<open>
  A coordinator that only records the calls it receives, to read off the calls the
  handler makes: every session lookup finds the session of \<open>u1\<close> for \<open>I1\<close>, every
  decrement succeeds.
\<close>

datatype coordinator_call = Call_GetCheckoutSession string | Call_DecrementInventory string

definition traced_getSession ::
  "coordinator_call list \<Rightarrow> string \<Rightarrow> (go_error + string \<times> string) \<times> coordinator_call list" where
  "traced_getSession calls code = (Inr (''u1'', ''I1''), calls @ [Call_GetCheckoutSession code])"

definition traced_decrInventory ::
  "coordinator_call list \<Rightarrow> string \<Rightarrow> (go_error + bool) \<times> coordinator_call list" where
  "traced_decrInventory calls itemID = (Inr True, calls @ [Call_DecrementInventory itemID])"

section \<open>scheduler: sale creation (the scheduler files)\<close>

text \<open>
  \<^verbatim>\<open>t.Truncate(d)\<close> rounds \<open>t\<close> down to a multiple of \<open>d\<close> since the zero time, and
  returns \<open>t\<close> when \<open>d\<close> is not positive.
\<close>

definition Truncate :: "int \<Rightarrow> int \<Rightarrow> int" where
  "Truncate t d = (if d \<le> 0 then t else t - t mod d)"

datatype sale_status = SaleStatusScheduled | SaleStatusActive | SaleStatusCompleted | SaleStatusCancelled

record Sale =
  SaleID :: string
  StartTime :: int
  EndTime :: int
  TotalItems :: int
  ItemsSold :: int
  SaleStatus :: sale_status

text \<open>
  \<^verbatim>\<open>Scheduler.createNewSale\<close>. The calls it makes outside the scheduler file are taken by
  their results: the id \<^verbatim>\<open>generateSaleID\<close> returns, and the errors of
  \<^verbatim>\<open>db.CreateSale\<close>, \<^verbatim>\<open>generateItems\<close>, \<^verbatim>\<open>db.CreateItems\<close> and \<^verbatim>\<open>redis.InitializeSale\<close>.
  \<open>ItemsPerSale\<close> is the constant \<^verbatim>\<open>models.ItemsPerSale\<close> (package \<^verbatim>\<open>models\<close> is not among
  the sources). The state is the table \<^verbatim>\<open>sales\<close>; \<^verbatim>\<open>db.CreateSale\<close> adds the row when it
  returns \<^verbatim>\<open>nil\<close>.
\<close>

record scheduler_calls =
  generateSaleID :: "go_error + string"
  CreateSale :: "go_error option"
  generateItems :: "go_error option"
  CreateItems :: "go_error option"
  InitializeSale :: "go_error option"

definition Errorf :: "string \<Rightarrow> go_error \<Rightarrow> go_error" where
  "Errorf prefix err = (case err of Error msg \<Rightarrow> Error (prefix @ msg))"

definition new_sale :: "int \<Rightarrow> string \<Rightarrow> int \<Rightarrow> Sale" where
  "new_sale ItemsPerSale saleID now =
     (let startTime = Truncate now Hour;
          endTime = startTime + Hour
      in \<lparr>SaleID = saleID, StartTime = startTime, EndTime = endTime,
          TotalItems = ItemsPerSale, ItemsSold = 0, SaleStatus = SaleStatusActive\<rparr>)"

definition createNewSale ::
  "int \<Rightarrow> scheduler_calls \<Rightarrow> int \<Rightarrow> Sale list \<Rightarrow> go_error option \<times> Sale list" where
  "createNewSale ItemsPerSale calls now sales =
     (case generateSaleID calls of
        Inl err \<Rightarrow> (Some (Errorf ''failed to generate sale ID: '' err), sales)
      | Inr saleID \<Rightarrow>
          (case CreateSale calls of
             Some err \<Rightarrow> (Some (Errorf ''failed to create sale in database: '' err), sales)
           | None \<Rightarrow>
               (let sales1 = sales @ [new_sale ItemsPerSale saleID now] in
                case generateItems calls of
                  Some err \<Rightarrow> (Some (Errorf ''failed to generate items: '' err), sales1)
                | None \<Rightarrow>
                    (case CreateItems calls of
                       Some err \<Rightarrow>
                         (Some (Errorf ''failed to create items in database: '' err), sales1)
                     | None \<Rightarrow>
                         (case InitializeSale calls of
                            Some err \<Rightarrow>
                              (Some (Errorf ''failed to initialize sale in Redis: '' err), sales1)
                          | None \<Rightarrow> (None, sales1))))))"

text \<open>
  The second \<^verbatim>\<open>createNewSale(db)\<close> of the scheduler sources, the one
  \<^verbatim>\<open>StartScheduler\<close> runs: a row \<^verbatim>\<open>(start_time, end_time, total_items)\<close> with the literal
  10000; \<open>exec_err\<close> is the error of \<^verbatim>\<open>db.Exec\<close>.
\<close>

record sales_row =
  start_time :: int
  end_time :: int
  total_items :: int

definition createNewSale_db :: "go_error option \<Rightarrow> int \<Rightarrow> sales_row list \<Rightarrow> sales_row list" where
  "createNewSale_db exec_err now rows =
     (let startTime = Truncate now Hour;
          endTime = startTime + 1 * Hour
      in case exec_err of
           Some err \<Rightarrow> rows
         | None \<Rightarrow> rows @ [\<lparr>start_time = startTime, end_time = endTime, total_items = 10000\<rparr>])"

text \<open>\<^verbatim>\<open>waitUntilNextHour\<close>, called at the clock reading \<open>now\<close>.\<close>

definition waitUntilNextHour :: "int \<Rightarrow> int" where
  "waitUntilNextHour now = Sub (Truncate now Hour + Hour) now"

text \<open>
  The first \<open>n\<close> ticks of a \<^verbatim>\<open>time.NewTicker(d)\<close> made at \<open>t\<close>: the first tick comes one
  period after the ticker is made.
\<close>

fun ticks :: "int \<Rightarrow> int \<Rightarrow> nat \<Rightarrow> int list" where
  "ticks t d 0 = []"
| "ticks t d (Suc n) = (t + d) # ticks (t + d) d n"

text \<open>
  The clock readings at which \<^verbatim>\<open>Scheduler.Start\<close>, entered at \<open>t0\<close>, calls
  \<^verbatim>\<open>createNewSale\<close>, through the \<open>n\<close>-th tick of its hourly ticker, for timers that fire
  on time, calls that take no time and a context that is not cancelled. \<open>activeSale\<close> is
  the result of \<^verbatim>\<open>db.GetActiveSale()\<close> (whether there is an active sale), \<open>initial\<close> the
  error of the initial \<^verbatim>\<open>createNewSale\<close>; either error makes \<^verbatim>\<open>Start\<close> return. The sale
  ticker is made after the wait for the next hour boundary is over; a failed creation in
  the loop is logged and the loop goes on.
\<close>

definition Start_creations :: "go_error + bool \<Rightarrow> go_error option \<Rightarrow> int \<Rightarrow> nat \<Rightarrow> int list" where
  "Start_creations activeSale initial t0 n =
     (case activeSale of
        Inl err \<Rightarrow> []
      | Inr True \<Rightarrow> ticks (t0 + waitUntilNextHour t0) Hour n
      | Inr False \<Rightarrow>
          (case initial of
             Some err \<Rightarrow> [t0]
           | None \<Rightarrow> t0 # ticks (t0 + waitUntilNextHour t0) Hour n))"

text \<open>
  The same for \<^verbatim>\<open>StartScheduler\<close>, the entry point \<^verbatim>\<open>main\<close> calls: its ticker is made at
  \<open>t0\<close>, and every tick calls \<^verbatim>\<open>createNewSale(db)\<close>.
\<close>

definition StartScheduler_creations :: "int \<Rightarrow> nat \<Rightarrow> int list" where
  "StartScheduler_creations t0 n = ticks t0 (1 * Hour) n"

text \<open>The window \<^verbatim>\<open>createNewSale\<close> gives the sale it creates at \<open>now\<close>.\<close>

definition sale_window :: "int \<Rightarrow> int \<times> int" where
  "sale_window now = (Truncate now Hour, Truncate now Hour + Hour)"

section \<open>Properties of the rate limiter\<close>

lemma int64_id: "- (2 ^ 63) \<le> x \<Longrightarrow> x < 2 ^ 63 \<Longrightarrow> int64 x = x"
  by (simp add: int64_def)

lemma Sub_range: "- (2 ^ 63) \<le> Sub t u \<and> Sub t u \<le> 2 ^ 63 - 1"
  by (simp add: Sub_def)

lemma whole_seconds_bound:
  "- (2 ^ 63) \<le> d \<Longrightarrow> d \<le> 2 ^ 63 - 1 \<Longrightarrow> \<bar>whole_seconds up d\<bar> \<le> 9223372037"
  by (auto simp: whole_seconds_def Second_def)

lemma whole_seconds_sub_second: "0 \<le> d \<Longrightarrow> d < Second \<Longrightarrow> whole_seconds up d = 0"
  by (simp add: whole_seconds_def Second_def)

text \<open>
  Below \<open>2 ^ 24\<close> seconds the conversion gives the whole seconds of the duration; from
  there on, the whole seconds or one more.
\<close>

lemma whole_seconds_exact:
  "0 \<le> d \<Longrightarrow> d < 2 ^ 24 * Second \<Longrightarrow> whole_seconds up d = d div Second"
  by (simp add: whole_seconds_def)

lemma whole_seconds_near:
  "0 \<le> d \<Longrightarrow> d div Second \<le> whole_seconds up d \<and> whole_seconds up d \<le> d div Second + 1"
  by (simp add: whole_seconds_def)

lemma product_bound:
  fixes a b :: int
  assumes "\<bar>a\<bar> \<le> 9223372037" and "\<bar>b\<bar> < 2 ^ 28"
  shows "\<bar>a * b\<bar> < 2 ^ 62"
proof -
  have "\<bar>a * b\<bar> = \<bar>a\<bar> * \<bar>b\<bar>" by (simp add: abs_mult)
  also have "\<dots> \<le> 9223372037 * \<bar>b\<bar>" using assms(1) by (simp add: mult_right_mono)
  also have "\<dots> < 9223372037 * 2 ^ 28" using assms(2) by simp
  also have "\<dots> < (2::int) ^ 62" by simp
  finally show ?thesis .
qed

text \<open>With a rate below \<open>2 ^ 28\<close> the product of \<^verbatim>\<open>Allow\<close> does not wrap.\<close>

lemma tokensToAdd_exact:
  assumes "\<bar>rate rl\<bar> < 2 ^ 28"
  shows "tokensToAdd up rl now prev = whole_seconds up (Sub now prev) * rate rl"
    and "\<bar>tokensToAdd up rl now prev\<bar> < 2 ^ 62"
proof -
  have b: "\<bar>whole_seconds up (Sub now prev) * rate rl\<bar> < 2 ^ 62"
    using product_bound [OF whole_seconds_bound assms] Sub_range by simp
  then show "tokensToAdd up rl now prev = whole_seconds up (Sub now prev) * rate rl"
    unfolding tokensToAdd_def by (intro int64_id) auto
  with b show "\<bar>tokensToAdd up rl now prev\<bar> < 2 ^ 62" by simp
qed

lemma Allow_config:
  "rate (snd (Allow up rl now key)) = rate rl \<and> burst (snd (Allow up rl now key)) = burst rl"
  by (simp add: Allow_def refill_def Let_def split: option.splits)

lemma Allow_seen_result:
  assumes "lastRefill rl key = Some prev"
  shows "Allow up rl now key =
    (0 < tokens_at (refill up rl now key prev) key,
     if 0 < tokens_at (refill up rl now key prev) key
     then (refill up rl now key prev)\<lparr>tokens :=
            (tokens (refill up rl now key prev))(key \<mapsto>
               tokens_at (refill up rl now key prev) key - 1)\<rparr>
     else refill up rl now key prev)"
  using assms by (simp add: Allow_def Let_def)

lemma refill_range:
  assumes "0 \<le> burst rl" and "burst rl < 2 ^ 62" and "\<bar>rate rl\<bar> < 2 ^ 28"
    and "0 \<le> tokens_at rl key" and "tokens_at rl key \<le> burst rl"
  shows "0 \<le> tokens_at (refill up rl now key prev) key
       \<and> tokens_at (refill up rl now key prev) key \<le> burst rl"
proof (cases "tokensToAdd up rl now prev > 0")
  case False
  then show ?thesis using assms by (simp add: refill_def)
next
  case True
  have "\<bar>tokensToAdd up rl now prev\<bar> < 2 ^ 62" by (rule tokensToAdd_exact(2) [OF assms(3)])
  then have "int64 (tokens_at rl key + tokensToAdd up rl now prev) =
      tokens_at rl key + tokensToAdd up rl now prev"
    using assms True by (intro int64_id) auto
  then show ?thesis using True assms by (simp add: refill_def tokens_at_def min_int_def)
qed

lemma Allow_range:
  assumes "0 \<le> burst rl" and "burst rl < 2 ^ 62" and "\<bar>rate rl\<bar> < 2 ^ 28"
    and "lastRefill rl key = None \<or> (0 \<le> tokens_at rl key \<and> tokens_at rl key \<le> burst rl)"
  shows "0 \<le> tokens_at (snd (Allow up rl now key)) key
       \<and> tokens_at (snd (Allow up rl now key)) key \<le> burst rl"
proof (cases "lastRefill rl key")
  case None
  then show ?thesis using assms(1) by (simp add: Allow_def tokens_at_def)
next
  case (Some prev)
  with assms(4) have r: "0 \<le> tokens_at rl key" "tokens_at rl key \<le> burst rl" by auto
  have "0 \<le> tokens_at (refill up rl now key prev) key
      \<and> tokens_at (refill up rl now key prev) key \<le> burst rl"
    by (rule refill_range [OF assms(1-3) r])
  moreover have "burst (refill up rl now key prev) = burst rl" by (simp add: refill_def)
  ultimately show ?thesis
    by (auto simp: Allow_seen_result [OF Some] tokens_at_def)
qed

lemma Allow_calls_Cons:
  "Allow_calls up rl key (now # nows) =
     (fst (Allow up rl now key) # fst (Allow_calls up (snd (Allow up rl now key)) key nows),
      snd (Allow_calls up (snd (Allow up rl now key)) key nows))"
  by (simp split: prod.splits)

text \<open>The bucket of a key stays between 0 and the burst over any run of calls.\<close>

lemma Allow_calls_range:
  assumes "0 \<le> burst rl" and "burst rl < 2 ^ 62" and "\<bar>rate rl\<bar> < 2 ^ 28"
    and "lastRefill rl key = None \<or> (0 \<le> tokens_at rl key \<and> tokens_at rl key \<le> burst rl)"
    and "nows \<noteq> []"
  shows "0 \<le> tokens_at (snd (Allow_calls up rl key nows)) key
       \<and> tokens_at (snd (Allow_calls up rl key nows)) key \<le> burst rl"
  using assms
proof (induction nows arbitrary: rl)
  case Nil
  then show ?case by simp
next
  case (Cons now nows)
  let ?rl1 = "snd (Allow up rl now key)"
  have cfg: "rate ?rl1 = rate rl" "burst ?rl1 = burst rl" using Allow_config by auto
  have rng: "0 \<le> tokens_at ?rl1 key \<and> tokens_at ?rl1 key \<le> burst rl"
    by (rule Allow_range [OF Cons.prems(1-4)])
  show ?case
  proof (cases "nows = []")
    case True
    then show ?thesis using rng by (simp add: Allow_calls_Cons del: Allow_calls.simps(2))
  next
    case False
    have "0 \<le> tokens_at (snd (Allow_calls up ?rl1 key nows)) key
        \<and> tokens_at (snd (Allow_calls up ?rl1 key nows)) key \<le> burst ?rl1"
      using Cons.IH [of ?rl1] Cons.prems(1-3) cfg rng False by simp
    then show ?thesis using cfg by (simp add: Allow_calls_Cons del: Allow_calls.simps(2))
  qed
qed

text \<open>Less than a second after the last refill, the refill step changes nothing.\<close>

lemma refill_sub_second:
  assumes "prev \<le> now" and "now - prev < Second"
  shows "refill up rl now key prev = rl"
proof -
  have "Sub now prev = now - prev" using assms by (simp add: Sub_def Second_def)
  then have "whole_seconds up (Sub now prev) = 0"
    using assms by (simp add: whole_seconds_sub_second)
  then show ?thesis by (simp add: refill_def tokensToAdd_def int64_def)
qed

text \<open>
  Calls within the second after the last refill drain the bucket one token at a time:
  the \<open>i\<close>-th of them is granted exactly when \<open>i\<close> is below the number of tokens.
\<close>

lemma Allow_calls_no_refill:
  assumes "lastRefill rl key = Some t0" and "\<forall>t\<in>set nows. t0 \<le> t \<and> t - t0 < Second"
  shows "fst (Allow_calls up rl key nows) =
    map (\<lambda>i. int i < tokens_at rl key) [0..<length nows]"
  using assms
proof (induction nows arbitrary: rl)
  case Nil
  then show ?case by simp
next
  case (Cons now nows)
  have nr: "refill up rl now key t0 = rl" using Cons.prems by (intro refill_sub_second) auto
  let ?rl1 = "snd (Allow up rl now key)"
  have A: "fst (Allow up rl now key) = (0 < tokens_at rl key)"
    using Allow_seen_result [OF Cons.prems(1), of up now] nr by simp
  have l: "lastRefill ?rl1 key = Some t0"
    using Allow_seen_result [OF Cons.prems(1), of up now] nr Cons.prems(1) by simp
  have t: "tokens_at ?rl1 key =
      (if 0 < tokens_at rl key then tokens_at rl key - 1 else tokens_at rl key)"
    using Allow_seen_result [OF Cons.prems(1), of up now] nr by (simp add: tokens_at_def)
  have pt: "\<And>i. (int i < tokens_at ?rl1 key) = (int (Suc i) < tokens_at rl key)"
    using t by auto
  have IH: "fst (Allow_calls up ?rl1 key nows) =
      map (\<lambda>i. int i < tokens_at ?rl1 key) [0..<length nows]"
    using Cons.IH [OF l] Cons.prems(2) by simp
  have "fst (Allow_calls up rl key (now # nows)) =
      (0 < tokens_at rl key) # fst (Allow_calls up ?rl1 key nows)"
    using A by (simp add: Allow_calls_Cons del: Allow_calls.simps(2))
  also have "\<dots> = (0 < tokens_at rl key) #
      map (\<lambda>i. int i < tokens_at ?rl1 key) [0..<length nows]"
    using IH by simp
  also have "\<dots> = map (\<lambda>i. int i < tokens_at rl key) [0..<length (now # nows)]"
    by (simp only: length_Cons map_upt_Suc pt) simp
  finally show ?case .
qed

text \<open>
  Claim C10, as amended. For a limiter whose burst is from 0 to below \<open>2 ^ 62\<close> and
  whose rate is below \<open>2 ^ 28\<close> in absolute value (so that the int arithmetic of
  \<^verbatim>\<open>Allow\<close> does not wrap): on the first \<^verbatim>\<open>Allow\<close> for a key the limiter has not seen, the
  bucket is set to the burst and the call is granted without taking a token; so of the
  calls that follow within the same second (no refill yet) the first \<open>burst\<close> are
  granted too and the rest refused: \<open>burst + 1\<close> grants in a row. For a key already
  seen, a granted call takes exactly one token from the bucket as the refill step left
  it, and a bucket within \<open>[0, burst]\<close> stays within \<open>[0, burst]\<close>, after one call and
  after any run of calls from the first on, whatever time passes between them and
  however the float conversion rounds.
\<close>

theorem C10_fresh_key_burst_plus_one:
  assumes "0 \<le> burst rl" and "burst rl < 2 ^ 62" and "\<bar>rate rl\<bar> < 2 ^ 28"
  shows "(lastRefill rl key = None \<longrightarrow>
            Allow up rl now key =
              (True, rl\<lparr>tokens := (tokens rl)(key \<mapsto> burst rl),
                        lastRefill := (lastRefill rl)(key \<mapsto> now)\<rparr>)
          \<and> ((\<forall>t\<in>set nows. now \<le> t \<and> t - now < Second) \<longrightarrow>
               fst (Allow_calls up rl key (now # nows)) =
                 map (\<lambda>i. int i \<le> burst rl) [0..<Suc (length nows)])
          \<and> (0 \<le> tokens_at (snd (Allow_calls up rl key (now # nows))) key
               \<and> tokens_at (snd (Allow_calls up rl key (now # nows))) key \<le> burst rl))
       \<and> (lastRefill rl key = Some prev \<longrightarrow>
            (fst (Allow up rl now key) \<longrightarrow>
               tokens_at (snd (Allow up rl now key)) key =
                 tokens_at (refill up rl now key prev) key - 1)
          \<and> (0 \<le> tokens_at rl key \<and> tokens_at rl key \<le> burst rl \<longrightarrow>
               0 \<le> tokens_at (snd (Allow up rl now key)) key
               \<and> tokens_at (snd (Allow up rl now key)) key \<le> burst rl))"
proof (intro conjI impI)
  assume fresh: "lastRefill rl key = None"
  show first: "Allow up rl now key =
      (True, rl\<lparr>tokens := (tokens rl)(key \<mapsto> burst rl),
                lastRefill := (lastRefill rl)(key \<mapsto> now)\<rparr>)"
    using fresh by (simp add: Allow_def)
  show "0 \<le> tokens_at (snd (Allow_calls up rl key (now # nows))) key"
    and "tokens_at (snd (Allow_calls up rl key (now # nows))) key \<le> burst rl"
    using Allow_calls_range [OF assms, of key "now # nows" up] fresh by simp_all
  assume near: "\<forall>t\<in>set nows. now \<le> t \<and> t - now < Second"
  let ?rl1 = "snd (Allow up rl now key)"
  have l: "lastRefill ?rl1 key = Some now" and t: "tokens_at ?rl1 key = burst rl"
    using first by (simp_all add: tokens_at_def)
  have "fst (Allow_calls up rl key (now # nows)) =
          True # map (\<lambda>i. int i < burst rl) [0..<length nows]"
    using Allow_calls_no_refill [OF l near] t first
    by (simp add: Allow_calls_Cons del: Allow_calls.simps(2))
  also have "\<dots> = map (\<lambda>i. int i \<le> burst rl) [0..<Suc (length nows)]"
    using assms(1) by (simp only: map_upt_Suc) auto
  finally show "fst (Allow_calls up rl key (now # nows)) =
      map (\<lambda>i. int i \<le> burst rl) [0..<Suc (length nows)]" .
next
  assume seen: "lastRefill rl key = Some prev"
  {
    assume "fst (Allow up rl now key)"
    then show "tokens_at (snd (Allow up rl now key)) key =
        tokens_at (refill up rl now key prev) key - 1"
      by (simp add: Allow_seen_result [OF seen] tokens_at_def)
  }
  {
    assume "0 \<le> tokens_at rl key \<and> tokens_at rl key \<le> burst rl"
    then show "0 \<le> tokens_at (snd (Allow up rl now key)) key"
      and "tokens_at (snd (Allow up rl now key)) key \<le> burst rl"
      using Allow_range [OF assms, of key up now] by simp_all
  }
qed

text \<open>
  The theorem at a limiter of rate 100 and burst 2 that meets a client for the first
  time: five calls within one second are granted three times (\<open>burst + 1\<close>) and then
  refused; and at the limiter \<open>empty_bucket\<close> (rate 100, burst 200), three seconds after
  the last refill: the bucket is filled to 200 and the granted call leaves 199.
\<close>

theorem C10_witness:
  "lastRefill (NewRateLimiter 100 2) ''10.0.0.1:40000'' = None
   \<and> fst (Allow_calls (\<lambda>d. True) (NewRateLimiter 100 2) ''10.0.0.1:40000''
            [0, 1, 999999999, 999999999, 999999999])
       = [True, True, True, False, False]
   \<and> lastRefill empty_bucket ''10.0.0.1:40000'' = Some 0
   \<and> fst (Allow (\<lambda>d. True) empty_bucket 3000000000 ''10.0.0.1:40000'')
   \<and> tokens_at (snd (Allow (\<lambda>d. True) empty_bucket 3000000000 ''10.0.0.1:40000''))
        ''10.0.0.1:40000'' = 199"
  using C10_fresh_key_burst_plus_one [where rl = "NewRateLimiter 100 2"
      and key = "''10.0.0.1:40000''" and now = 0 and up = "\<lambda>d. True"
      and nows = "[1, 999999999, 999999999, 999999999]"]
    C10_fresh_key_burst_plus_one [where rl = empty_bucket and key = "''10.0.0.1:40000''"
      and prev = 0 and now = 3000000000 and up = "\<lambda>d. True"]
  by (simp add: NewRateLimiter_def Second_def empty_bucket_def Allow_def refill_def
      tokensToAdd_def tokens_at_def whole_seconds_def Sub_def int64_def min_int_def Let_def)

text \<open>
  The claim as stated, for every limiter, fails. With a burst of \<open>-1\<close> the first call
  is granted, which is one grant and not \<open>burst + 1 = 0\<close>, and the bucket then holds
  \<open>-1\<close>, outside \<open>[0, burst]\<close>. With rate and burst \<open>2 ^ 62\<close> the refill one second after
  the first call wraps around: the bucket holds \<open>- (2 ^ 63)\<close> and the call is refused.
\<close>

theorem C10_counterexample:
  "fst (Allow_calls (\<lambda>d. True) (NewRateLimiter 100 (- 1)) ''10.0.0.1:40000'' [0, 1])
     = [True, False]
   \<and> tokens_at (snd (Allow (\<lambda>d. True) (NewRateLimiter 100 (- 1)) 0 ''10.0.0.1:40000''))
        ''10.0.0.1:40000'' = - 1
   \<and> fst (Allow_calls (\<lambda>d. True) (NewRateLimiter (2 ^ 62) (2 ^ 62)) ''10.0.0.1:40000''
            [0, 1000000000])
       = [True, False]
   \<and> tokens_at (snd (Allow_calls (\<lambda>d. True) (NewRateLimiter (2 ^ 62) (2 ^ 62))
                        ''10.0.0.1:40000'' [0, 1000000000])) ''10.0.0.1:40000''
       = - (2 ^ 63)"
  by (simp add: NewRateLimiter_def Second_def Allow_def refill_def tokensToAdd_def
      tokens_at_def whole_seconds_def Sub_def int64_def min_int_def Let_def)

text \<open>
  Claim C8, as amended. For a key the limiter has seen, in a limiter whose rate is
  below \<open>2 ^ 28\<close> in absolute value and whose bucket is between 0 and a burst below
  \<open>2 ^ 62\<close> (so that the int arithmetic does not wrap), \<^verbatim>\<open>Allow\<close> adds
  \<^verbatim>\<open>int(elapsed.Seconds())\<close> times the rate, clamped at the burst, and only when that
  product is positive; it then moves the last-refill time to now, so the fraction of a
  second is dropped. \<^verbatim>\<open>int(elapsed.Seconds())\<close> is the number of whole seconds elapsed
  since the last refill when fewer than \<open>2 ^ 24\<close> seconds have elapsed, and that number
  or one more when more have. When less than a whole second has passed nothing is added
  and the last-refill time stays, so the time keeps counting towards the next whole
  second. The call is granted when the bucket so refilled holds a token, which it takes.
\<close>

theorem C8_whole_second_refill:
  assumes "lastRefill rl key = Some prev" and "\<bar>rate rl\<bar> < 2 ^ 28"
    and "0 \<le> tokens_at rl key" and "tokens_at rl key \<le> burst rl" and "burst rl < 2 ^ 62"
  shows "(let added = whole_seconds up (Sub now prev) * rate rl;
              level = (if 0 < added then min (tokens_at rl key + added) (burst rl)
                       else tokens_at rl key)
          in fst (Allow up rl now key) = (0 < level)
             \<and> tokens_at (snd (Allow up rl now key)) key
                  = (if 0 < level then level - 1 else level)
             \<and> lastRefill (snd (Allow up rl now key)) key
                  = Some (if 0 < added then now else prev))
         \<and> (prev \<le> now \<and> now - prev < 2 ^ 24 * Second \<longrightarrow>
              whole_seconds up (Sub now prev) = (now - prev) div Second)
         \<and> (prev \<le> now \<and> 2 ^ 24 * Second \<le> now - prev \<longrightarrow>
              Sub now prev div Second \<le> whole_seconds up (Sub now prev)
              \<and> whole_seconds up (Sub now prev) \<le> Sub now prev div Second + 1)
         \<and> (prev \<le> now \<and> now - prev < Second \<longrightarrow>
              whole_seconds up (Sub now prev) = 0 \<and> refill up rl now key prev = rl)"
proof -
  let ?added = "whole_seconds up (Sub now prev) * rate rl"
  have add: "tokensToAdd up rl now prev = ?added"
    and small: "\<bar>tokensToAdd up rl now prev\<bar> < 2 ^ 62"
    using tokensToAdd_exact [OF assms(2)] by auto
  have sum: "int64 (tokens_at rl key + ?added) = tokens_at rl key + ?added"
    using assms(3-5) small add by (intro int64_id) auto
  have lvl: "tokens_at (refill up rl now key prev) key =
      (if 0 < ?added then min (tokens_at rl key + ?added) (burst rl) else tokens_at rl key)"
    using add sum by (simp add: refill_def tokens_at_def min_int_def min_def)
  have lr: "lastRefill (refill up rl now key prev) key
      = Some (if 0 < ?added then now else prev)"
    using add assms(1) by (simp add: refill_def)
  have A: "fst (Allow up rl now key) = (0 < tokens_at (refill up rl now key prev) key)"
    and B: "tokens_at (snd (Allow up rl now key)) key =
      (if 0 < tokens_at (refill up rl now key prev) key
       then tokens_at (refill up rl now key prev) key - 1
       else tokens_at (refill up rl now key prev) key)"
    and C: "lastRefill (snd (Allow up rl now key)) key
      = lastRefill (refill up rl now key prev) key"
    by (simp_all add: Allow_seen_result [OF assms(1)] tokens_at_def)
  have main: "(let added = ?added;
              level = (if 0 < added then min (tokens_at rl key + added) (burst rl)
                       else tokens_at rl key)
          in fst (Allow up rl now key) = (0 < level)
             \<and> tokens_at (snd (Allow up rl now key)) key
                  = (if 0 < level then level - 1 else level)
             \<and> lastRefill (snd (Allow up rl now key)) key
                  = Some (if 0 < added then now else prev))"
    unfolding Let_def using A B C lvl lr by simp
  have exact: "prev \<le> now \<and> now - prev < 2 ^ 24 * Second \<longrightarrow>
      whole_seconds up (Sub now prev) = (now - prev) div Second"
  proof
    assume h: "prev \<le> now \<and> now - prev < 2 ^ 24 * Second"
    then have "Sub now prev = now - prev" by (simp add: Sub_def Second_def)
    then show "whole_seconds up (Sub now prev) = (now - prev) div Second"
      using h by (simp add: whole_seconds_exact)
  qed
  have near: "prev \<le> now \<and> 2 ^ 24 * Second \<le> now - prev \<longrightarrow>
      Sub now prev div Second \<le> whole_seconds up (Sub now prev)
      \<and> whole_seconds up (Sub now prev) \<le> Sub now prev div Second + 1"
  proof
    assume h: "prev \<le> now \<and> 2 ^ 24 * Second \<le> now - prev"
    then have "0 \<le> Sub now prev" by (simp add: Sub_def)
    then show "Sub now prev div Second \<le> whole_seconds up (Sub now prev)
      \<and> whole_seconds up (Sub now prev) \<le> Sub now prev div Second + 1"
      by (rule whole_seconds_near)
  qed
  have sub: "prev \<le> now \<and> now - prev < Second \<longrightarrow>
      whole_seconds up (Sub now prev) = 0 \<and> refill up rl now key prev = rl"
  proof
    assume h: "prev \<le> now \<and> now - prev < Second"
    then have "Sub now prev = now - prev" by (simp add: Sub_def Second_def)
    then have "whole_seconds up (Sub now prev) = 0"
      using h by (simp add: whole_seconds_sub_second)
    moreover have "refill up rl now key prev = rl" using h by (intro refill_sub_second) auto
    ultimately show "whole_seconds up (Sub now prev) = 0 \<and> refill up rl now key prev = rl"
      by simp
  qed
  from main exact near sub show ?thesis by (intro conjI)
qed

text \<open>
  The theorem at \<open>empty_bucket\<close> (rate 100, burst 200, no token): 1.9 seconds after the
  last refill the call adds 100 tokens (one whole second), is granted and leaves 99,
  and the last-refill time moves to now; 0.5 seconds after it nothing changes; and
  16777216.999999999 seconds after it, where the float sum rounds up, the conversion
  gives 16777217, one more than the 16777216 whole seconds.
\<close>

theorem C8_witness:
  "lastRefill empty_bucket ''10.0.0.1:40000'' = Some 0
   \<and> fst (Allow (\<lambda>d. True) empty_bucket 1900000000 ''10.0.0.1:40000'') = True
   \<and> tokens_at (snd (Allow (\<lambda>d. True) empty_bucket 1900000000 ''10.0.0.1:40000''))
        ''10.0.0.1:40000'' = 99
   \<and> lastRefill (snd (Allow (\<lambda>d. True) empty_bucket 1900000000 ''10.0.0.1:40000''))
        ''10.0.0.1:40000'' = Some 1900000000
   \<and> whole_seconds (\<lambda>d. True) (Sub 1900000000 0) = 1
   \<and> whole_seconds (\<lambda>d. True) (Sub 500000000 0) = 0
   \<and> refill (\<lambda>d. True) empty_bucket 500000000 ''10.0.0.1:40000'' 0 = empty_bucket
   \<and> 16777216 \<le> whole_seconds (\<lambda>d. True) (Sub 16777216999999999 0)
   \<and> whole_seconds (\<lambda>d. True) (Sub 16777216999999999 0) \<le> 16777217"
  using C8_whole_second_refill [where rl = empty_bucket and key = "''10.0.0.1:40000''"
      and prev = 0 and now = 1900000000 and up = "\<lambda>d. True"]
    C8_whole_second_refill [where rl = empty_bucket and key = "''10.0.0.1:40000''"
      and prev = 0 and now = 500000000 and up = "\<lambda>d. True"]
    C8_whole_second_refill [where rl = empty_bucket and key = "''10.0.0.1:40000''"
      and prev = 0 and now = 16777216999999999 and up = "\<lambda>d. True"]
  by (simp add: empty_bucket_def tokens_at_def Sub_def Second_def Let_def)

text \<open>
  The claim as the specification states it fails: half a second after the last refill,
  at rate 100, the time-proportional refill gives the empty bucket 50 tokens, so the
  call would be granted; \<^verbatim>\<open>Allow\<close> refuses it and the bucket stays empty. After 1.9
  seconds the proportional refill gives 190 tokens; \<^verbatim>\<open>Allow\<close> adds 100 and, one token
  taken, leaves 99. (Both durations are far below \<open>2 ^ 24\<close> seconds, where the float
  conversion does not round.)
\<close>

theorem C8_counterexample:
  "fst (Allow (\<lambda>d. True) empty_bucket 500000000 ''10.0.0.1:40000'') = False
   \<and> tokens_at (snd (Allow (\<lambda>d. True) empty_bucket 500000000 ''10.0.0.1:40000''))
        ''10.0.0.1:40000'' = 0
   \<and> spec_proportional_tokens empty_bucket 500000000 ''10.0.0.1:40000'' 0 = 50
   \<and> tokens_at (snd (Allow (\<lambda>d. True) empty_bucket 1900000000 ''10.0.0.1:40000''))
        ''10.0.0.1:40000'' = 99
   \<and> spec_proportional_tokens empty_bucket 1900000000 ''10.0.0.1:40000'' 0 = 190"
  by (simp add: empty_bucket_def Allow_def refill_def tokensToAdd_def
      spec_proportional_tokens_def tokens_at_def whole_seconds_def Sub_def int64_def
      min_int_def Let_def Second_def)

section \<open>Properties of the health endpoint\<close>

text \<open>
  Claim C9. \<^verbatim>\<open>GET /health\<close> always answers with status 200, whatever the two pings
  return. A failed ping shows in the JSON body only: \<^verbatim>\<open>status\<close> is \<^verbatim>\<open>"ERROR"\<close> when either
  ping fails, \<^verbatim>\<open>database\<close> when the database ping fails, \<^verbatim>\<open>redis\<close> when the Redis ping
  fails, and each is \<^verbatim>\<open>"OK"\<close> otherwise.
\<close>

theorem C9_health_always_200:
  "status (HealthCheck db_Ping redis_Ping unix_now) = 200
   \<and> content_type (HealthCheck db_Ping redis_Ping unix_now) = ''application/json''
   \<and> Status (body (HealthCheck db_Ping redis_Ping unix_now)) =
       (if db_Ping = None \<and> redis_Ping = None then ''OK'' else ''ERROR'')
   \<and> Database (body (HealthCheck db_Ping redis_Ping unix_now)) =
       (if db_Ping = None then ''OK'' else ''ERROR'')
   \<and> Redis (body (HealthCheck db_Ping redis_Ping unix_now)) =
       (if redis_Ping = None then ''OK'' else ''ERROR'')
   \<and> Timestamp (body (HealthCheck db_Ping redis_Ping unix_now)) = unix_now"
  by (simp add: HealthCheck_def Let_def split: option.splits)

section \<open>Properties of the purchase handler\<close>

lemmas purchase_defs =
  Purchase_def PurchaseHandler_def GetCheckoutSession_def DecrementInventory_def
  recordPurchase_def http_Error_def inventory_at_def user_count_at_def

text \<open>
  Claim C6, as amended. \<^verbatim>\<open>POST /purchase\<close> answers 400 when the code is missing and
  when the session lookup returns an error; 409 when the inventory decrement reports
  that nothing was decremented (sold out); 500 when the inventory decrement returns an
  error; and 200 with the JSON body \<^verbatim>\<open>{success: true, purchase_id, message}\<close> when the
  decrement succeeds. This holds for every behaviour of the two coordinator calls.
\<close>

theorem C6_purchase_status_codes:
  "(code = [] \<longrightarrow> status (fst (PurchaseHandler getSession decrInventory (db, r) code)) = 400)
   \<and> (code \<noteq> [] \<and> getSession r code = (Inl err, r1) \<longrightarrow>
        status (fst (PurchaseHandler getSession decrInventory (db, r) code)) = 400)
   \<and> (code \<noteq> [] \<and> getSession r code = (Inr (userID, itemID), r1)
        \<and> decrInventory r1 itemID = (Inr False, r2) \<longrightarrow>
        status (fst (PurchaseHandler getSession decrInventory (db, r) code)) = 409)
   \<and> (code \<noteq> [] \<and> getSession r code = (Inr (userID, itemID), r1)
        \<and> decrInventory r1 itemID = (Inl err, r2) \<longrightarrow>
        status (fst (PurchaseHandler getSession decrInventory (db, r) code)) = 500)
   \<and> (code \<noteq> [] \<and> getSession r code = (Inr (userID, itemID), r1)
        \<and> decrInventory r1 itemID = (Inr True, r2) \<longrightarrow>
        fst (PurchaseHandler getSession decrInventory (db, r) code) =
          \<lparr>status = 200, content_type = ''application/json'',
           body = PurchaseJSON True ''purchase_a1b2c3d4e5f6g7h8''
                    ''Purchase completed successfully''\<rparr>)"
  by (simp add: PurchaseHandler_def http_Error_def recordPurchase_def)

text \<open>
  The theorem at one request of each kind: no code; a code without a session; a valid
  code when nothing is left of the sale; a valid code when the decrement fails with a
  connection error; a valid code with three items left.
\<close>

theorem C6_witness:
  "status (fst (Purchase sale_s1 ([], shop) [])) = 400
   \<and> status (fst (Purchase sale_s1 ([], shop) ''K9'')) = 400
   \<and> status (fst (Purchase sale_s1 ([], shop\<lparr>inventory := [''s1'' \<mapsto> 0]\<rparr>) ''K1'')) = 409
   \<and> status (fst (PurchaseHandler (\<lambda>r code. (Inr (''u1'', ''I1''), r))
                  (\<lambda>r itemID. (Inl (Error ''dial tcp: connection refused''), r))
                  ([], ()) ''K1'')) = 500
   \<and> fst (Purchase sale_s1 ([], shop) ''K1'') =
          \<lparr>status = 200, content_type = ''application/json'',
           body = PurchaseJSON True ''purchase_a1b2c3d4e5f6g7h8''
                    ''Purchase completed successfully''\<rparr>"
  using C6_purchase_status_codes [where code = "[]" and getSession = GetCheckoutSession
      and decrInventory = "DecrementInventory sale_s1" and db = "[]" and r = shop]
    C6_purchase_status_codes [where code = "''K9''" and getSession = GetCheckoutSession
      and decrInventory = "DecrementInventory sale_s1" and db = "[]" and r = shop
      and err = "Error ''checkout session not found''" and ?r1.0 = shop]
    C6_purchase_status_codes [where code = "''K1''" and getSession = GetCheckoutSession
      and decrInventory = "DecrementInventory sale_s1" and db = "[]"
      and r = "shop\<lparr>inventory := [''s1'' \<mapsto> 0]\<rparr>"
      and ?r1.0 = "shop\<lparr>inventory := [''s1'' \<mapsto> 0]\<rparr>"
      and ?r2.0 = "shop\<lparr>inventory := [''s1'' \<mapsto> 0]\<rparr>"
      and userID = "''u1''" and itemID = "''I1''"]
    C6_purchase_status_codes [where code = "''K1''"
      and getSession = "\<lambda>r code. (Inr (''u1'', ''I1''), r)"
      and decrInventory = "\<lambda>r itemID. (Inl (Error ''dial tcp: connection refused''), r)"
      and db = "[]" and r = "()" and ?r1.0 = "()" and ?r2.0 = "()"
      and userID = "''u1''" and itemID = "''I1''"
      and err = "Error ''dial tcp: connection refused''"]
    C6_purchase_status_codes [where code = "''K1''" and getSession = GetCheckoutSession
      and decrInventory = "DecrementInventory sale_s1" and db = "[]" and r = shop
      and ?r1.0 = shop and ?r2.0 = "shop\<lparr>inventory := [''s1'' \<mapsto> 2]\<rparr>"
      and userID = "''u1''" and itemID = "''I1''"]
  by (simp add: Purchase_def GetCheckoutSession_def DecrementInventory_def shop_def
      sale_s1_def inventory_at_def)

text \<open>
  The claim as the specification states it fails: a coordinator that cannot be reached
  when the inventory is decremented (\<^verbatim>\<open>DecrementInventory\<close> returns an error) is answered
  with 500, not 503; and one that cannot be reached when the session is looked up is
  answered with 400, as an invalid code is.
\<close>

theorem C6_counterexample:
  "status (fst (PurchaseHandler (\<lambda>r code. (Inr (''u1'', ''I1''), r))
                  (\<lambda>r itemID. (Inl (Error ''dial tcp: connection refused''), r))
                  ([], ()) ''K1'')) = 500
   \<and> status (fst (Purchase sale_s1 ([], shop\<lparr>reachable := False\<rparr>) ''K1'')) = 400"
  by (simp add: Purchase_def PurchaseHandler_def http_Error_def GetCheckoutSession_def
      shop_def)

text \<open>The handler on the coordinator, case by case.\<close>

lemma Purchase_result:
  "Purchase sale_of (db, r) code =
     (if code = [] then (http_Error ''Missing checkout code'' 400, (db, r))
      else if \<not> reachable r then (http_Error ''Invalid or expired checkout code'' 400, (db, r))
      else case sessions r code of
        None \<Rightarrow> (http_Error ''Invalid or expired checkout code'' 400, (db, r))
      | Some (userID, itemID) \<Rightarrow>
          if inventory_at r (sale_of itemID) \<le> 0
          then (http_Error ''Item sold out'' 409, (db, r))
          else (\<lparr>status = 200, content_type = ''application/json'',
                 body = PurchaseJSON True ''purchase_a1b2c3d4e5f6g7h8''
                          ''Purchase completed successfully''\<rparr>,
                (db, r\<lparr>inventory := (inventory r)(sale_of itemID \<mapsto>
                                        inventory_at r (sale_of itemID) - 1)\<rparr>)))"
  by (auto simp: Purchase_def PurchaseHandler_def GetCheckoutSession_def
      DecrementInventory_def recordPurchase_def split: option.splits)

text \<open>
  A purchase request leaves the sessions, the per-user counters and the rows of
  \<^verbatim>\<open>purchases\<close> as they were.
\<close>

lemma Purchase_frame:
  "sessions (snd (snd (Purchase sale_of (db, r) code))) = sessions r"
  "reachable (snd (snd (Purchase sale_of (db, r) code))) = reachable r"
  "user_count (snd (snd (Purchase sale_of (db, r) code))) = user_count r"
  "fst (snd (Purchase sale_of (db, r) code)) = db"
  by (simp_all add: Purchase_result split: option.splits)

lemma Purchase_inventory:
  "inventory_at (snd (snd (Purchase sale_of (db, r) code))) sale =
     inventory_at r sale -
       (if status (fst (Purchase sale_of (db, r) code)) = 200 \<and>
           (case sessions r code of
              None \<Rightarrow> False
            | Some (userID, itemID) \<Rightarrow> sale_of itemID = sale)
        then 1 else 0)"
  by (auto simp: Purchase_result http_Error_def inventory_at_def split: option.splits)

lemma Purchase_nonneg:
  "0 \<le> inventory_at r sale \<Longrightarrow>
   0 \<le> inventory_at (snd (snd (Purchase sale_of (db, r) code))) sale"
  by (auto simp: Purchase_result http_Error_def inventory_at_def split: option.splits)

lemma serve_Cons:
  "serve sale_of st (code # codes) =
     (fst (Purchase sale_of st code) # fst (serve sale_of (snd (Purchase sale_of st code)) codes),
      snd (serve sale_of (snd (Purchase sale_of st code)) codes))"
  by (simp split: prod.splits)

lemma sold_Cons:
  "sold sale_of sale st (code # codes) =
     (if status (fst (Purchase sale_of st code)) = 200 \<and>
         (case sessions (snd st) code of
            None \<Rightarrow> False
          | Some (userID, itemID) \<Rightarrow> sale_of itemID = sale)
      then 1 else 0) + sold sale_of sale (snd (Purchase sale_of st code)) codes"
  by (simp split: prod.splits)

text \<open>
  Over a run of requests, the purchases of a sale that succeed and the counter that is
  left add up to the counter at the start, and the counter does not go below 0.
\<close>

lemma serve_inventory:
  "0 \<le> inventory_at r sale \<Longrightarrow>
   int (sold sale_of sale (db, r) codes)
     + inventory_at (snd (snd (serve sale_of (db, r) codes))) sale = inventory_at r sale
   \<and> 0 \<le> inventory_at (snd (snd (serve sale_of (db, r) codes))) sale"
proof (induction codes arbitrary: db r)
  case Nil
  then show ?case by simp
next
  case (Cons code codes)
  obtain db1 r1 where st1: "snd (Purchase sale_of (db, r) code) = (db1, r1)"
    by (cases "snd (Purchase sale_of (db, r) code)") auto
  have r1: "r1 = snd (snd (Purchase sale_of (db, r) code))" using st1 by simp
  have nn: "0 \<le> inventory_at r1 sale" unfolding r1 by (rule Purchase_nonneg [OF Cons.prems])
  define hit where "hit \<longleftrightarrow> status (fst (Purchase sale_of (db, r) code)) = 200 \<and>
      (case sessions r code of None \<Rightarrow> False | Some (userID, itemID) \<Rightarrow> sale_of itemID = sale)"
  have inv: "inventory_at r1 sale = inventory_at r sale - (if hit then 1 else 0)"
    unfolding r1 hit_def by (rule Purchase_inventory)
  have sc: "sold sale_of sale (db, r) (code # codes) =
      (if hit then 1 else 0) + sold sale_of sale (db1, r1) codes"
    unfolding hit_def by (simp add: sold_Cons st1 del: sold.simps(2))
  have sv: "snd (snd (serve sale_of (db, r) (code # codes))) =
      snd (snd (serve sale_of (db1, r1) codes))"
    by (simp add: serve_Cons st1 del: serve.simps(2))
  from Cons.IH [OF nn, of db1] inv show ?case
    unfolding sc sv by (cases hit) simp_all
qed

text \<open>
  The steps of one request, taken without interruption, are the handler: three steps
  answer any request with the handler's response and leave the handler's state.
\<close>

lemma three_steps:
  "handler_steps getSession decrInventory 3 (handler_enter code, st) =
     (Answered (fst (PurchaseHandler getSession decrInventory st code)),
      snd (PurchaseHandler getSession decrInventory st code))"
  by (cases st)
     (simp add: numeral_3_eq_3 handler_enter_def handler_step_def PurchaseHandler_def
        split: prod.splits sum.splits)

lemma purchased_le_holding: "purchased sale_of sale ss e \<le> holding sale_of sale ss e"
  by (cases e) (simp add: purchased_def holding_def split: handler_point.splits)

lemma sum_list_update_int:
  fixes xs :: "int list"
  shows "k < length xs \<Longrightarrow> sum_list (xs[k := x]) = sum_list xs + x - xs ! k"
proof (induction xs arbitrary: k)
  case Nil
  then show ?case by simp
next
  case (Cons y ys)
  then show ?case by (cases k) simp_all
qed

text \<open>
  A step of a request on the coordinator keeps the sessions and the request's
  consistency, and the items held plus the items left stay the same.
\<close>

lemma Purchase_step:
  assumes "consistent (sessions r) (code, pt)"
    and "handler_step GetCheckoutSession (DecrementInventory sale_of) (db, r) pt = (pt1, (db1, r1))"
  shows "sessions r1 = sessions r"
    and "consistent (sessions r) (code, pt1)"
    and "holding sale_of sale (sessions r) (code, pt1) + inventory_at r1 sale
          = holding sale_of sale (sessions r) (code, pt) + inventory_at r sale"
    and "0 \<le> inventory_at r sale \<Longrightarrow> 0 \<le> inventory_at r1 sale"
proof -
  show "sessions r1 = sessions r"
    using assms(2)
    by (cases pt)
       (auto simp: handler_step_def GetCheckoutSession_def DecrementInventory_def
          recordPurchase_def split: if_splits option.splits prod.splits)
  show "consistent (sessions r) (code, pt1)"
    using assms
    by (cases pt)
       (auto simp: handler_step_def GetCheckoutSession_def DecrementInventory_def
          recordPurchase_def consistent_def split: if_splits option.splits prod.splits)
  show "holding sale_of sale (sessions r) (code, pt1) + inventory_at r1 sale
          = holding sale_of sale (sessions r) (code, pt) + inventory_at r sale"
    using assms
    by (cases pt)
       (auto simp: handler_step_def GetCheckoutSession_def DecrementInventory_def
          recordPurchase_def consistent_def holding_def in_sale_def inventory_at_def
          http_Error_def split: if_splits option.splits prod.splits)
  show "0 \<le> inventory_at r sale \<Longrightarrow> 0 \<le> inventory_at r1 sale"
    using assms(2)
    by (cases pt)
       (auto simp: handler_step_def GetCheckoutSession_def DecrementInventory_def
          recordPurchase_def inventory_at_def split: if_splits option.splits prod.splits)
qed

text \<open>The same over any schedule of any requests in flight.\<close>

lemma interleave_inventory:
  assumes "\<forall>e\<in>set pool. consistent (sessions r) e" and "0 \<le> inventory_at r sale"
    and "interleave GetCheckoutSession (DecrementInventory sale_of) (pool, (db, r)) schedule
          = (pool1, (db1, r1))"
  shows "sum_list (map (holding sale_of sale (sessions r)) pool1) + inventory_at r1 sale
          = sum_list (map (holding sale_of sale (sessions r)) pool) + inventory_at r sale
       \<and> 0 \<le> inventory_at r1 sale \<and> sessions r1 = sessions r \<and> length pool1 = length pool"
  using assms
proof (induction schedule arbitrary: pool db r)
  case Nil
  then show ?case by simp
next
  case (Cons i schedule)
  show ?case
  proof (cases "i < length pool")
    case False
    with Cons.prems(3) have "interleave GetCheckoutSession (DecrementInventory sale_of)
        (pool, (db, r)) schedule = (pool1, (db1, r1))" by simp
    from Cons.IH [OF Cons.prems(1,2) this] show ?thesis .
  next
    case True
    obtain code pt where e: "pool ! i = (code, pt)" by (cases "pool ! i")
    obtain pt2 db2 r2 where st: "handler_step GetCheckoutSession (DecrementInventory sale_of)
        (db, r) pt = (pt2, (db2, r2))"
      by (metis prod.exhaust)
    have c: "consistent (sessions r) (code, pt)"
      using Cons.prems(1) True e by (metis nth_mem)
    note S = Purchase_step [OF c st]
    let ?pool2 = "pool[i := (code, pt2)]"
    have run: "interleave GetCheckoutSession (DecrementInventory sale_of)
        (?pool2, (db2, r2)) schedule = (pool1, (db1, r1))"
      using Cons.prems(3) True e st by simp
    have c2: "\<forall>e\<in>set ?pool2. consistent (sessions r2) e"
    proof
      fix x assume "x \<in> set ?pool2"
      then have "x = (code, pt2) \<or> x \<in> set pool"
        using set_update_subset_insert [of pool i "(code, pt2)"] by auto
      then show "consistent (sessions r2) x"
        using S(1,2) Cons.prems(1) by auto
    qed
    have n2: "0 \<le> inventory_at r2 sale" using S(4) [of sale] Cons.prems(2) by simp
    have sum2: "sum_list (map (holding sale_of sale (sessions r)) ?pool2) + inventory_at r2 sale
        = sum_list (map (holding sale_of sale (sessions r)) pool) + inventory_at r sale"
      using S(3) [of sale] True e by (simp add: map_update sum_list_update_int)
    from Cons.IH [OF c2 n2 run] S(1) sum2 show ?thesis by simp
  qed
qed

lemma arrive_consistent: "\<forall>e\<in>set (arrive codes). consistent ss e"
  by (auto simp: arrive_def handler_enter_def consistent_def)

lemma arrive_holding: "sum_list (map (holding sale_of sale ss) (arrive codes)) = 0"
  by (induction codes) (simp_all add: arrive_def handler_enter_def holding_def http_Error_def)

lemma sum_list_purchased_le:
  "sum_list (map (purchased sale_of sale ss) pool) \<le> sum_list (map (holding sale_of sale ss) pool)"
  by (induction pool) (simp_all add: add_mono purchased_le_holding)

text \<open>
  Under every schedule, the purchases of a sale that are answered 200 do not exceed the
  sale's counter at the start.
\<close>

lemma concurrent_no_oversell:
  assumes "0 \<le> inventory_at r sale"
  shows "sum_list (map (purchased sale_of sale (sessions r))
            (fst (interleave GetCheckoutSession (DecrementInventory sale_of)
                   (arrive codes, (db, r)) schedule))) \<le> inventory_at r sale"
proof -
  obtain pool1 db1 r1 where run: "interleave GetCheckoutSession (DecrementInventory sale_of)
      (arrive codes, (db, r)) schedule = (pool1, (db1, r1))"
    by (metis prod.exhaust)
  from interleave_inventory [OF arrive_consistent assms run]
  have "sum_list (map (holding sale_of sale (sessions r)) pool1) + inventory_at r1 sale
      = inventory_at r sale" and "0 \<le> inventory_at r1 sale"
    by (simp_all add: arrive_holding)
  then show ?thesis
    using sum_list_purchased_le [of sale_of sale "sessions r" pool1] run by simp
qed


text \<open>
  Claim C2. For every sale, the purchases that succeed never exceed the quota the
  sale's inventory counter was set to, under every schedule of the calls of any
  requests in flight. Served one after the other, each purchase that succeeds takes
  exactly one from the counter of its sale and nothing else changes it, so the
  purchases of the sale number what the counter lost and at most what it held. A request
  with a valid code for a sale with items left is answered 200 and decrements the
  sale's counter by one; when the decrement would make the counter negative, the
  counter is left as it was, the answer is 409 "Item sold out", and nothing is
  recorded: database and coordinator are unchanged.
\<close>

theorem C2_no_oversell:
  assumes "0 \<le> inventory_at r sale"
  shows "sum_list (map (purchased sale_of sale (sessions r))
            (fst (interleave GetCheckoutSession (DecrementInventory sale_of)
                   (arrive codes, (db, r)) schedule))) \<le> inventory_at r sale
       \<and> int (sold sale_of sale (db, r) codes) \<le> inventory_at r sale
       \<and> inventory_at (snd (snd (serve sale_of (db, r) codes))) sale =
           inventory_at r sale - int (sold sale_of sale (db, r) codes)
       \<and> (code \<noteq> [] \<and> reachable r \<and> sessions r code = Some (userID, itemID)
            \<and> 0 < inventory_at r (sale_of itemID) \<longrightarrow>
              status (fst (Purchase sale_of (db, r) code)) = 200
              \<and> inventory_at (snd (snd (Purchase sale_of (db, r) code))) (sale_of itemID) =
                  inventory_at r (sale_of itemID) - 1)
       \<and> (code \<noteq> [] \<and> reachable r \<and> sessions r code = Some (userID, itemID)
            \<and> inventory_at r (sale_of itemID) - 1 < 0 \<longrightarrow>
              Purchase sale_of (db, r) code = (http_Error ''Item sold out'' 409, (db, r)))"
proof -
  have run: "int (sold sale_of sale (db, r) codes)
        + inventory_at (snd (snd (serve sale_of (db, r) codes))) sale = inventory_at r sale"
    and left: "0 \<le> inventory_at (snd (snd (serve sale_of (db, r) codes))) sale"
    using serve_inventory [OF assms] by auto
  have ok: "code \<noteq> [] \<and> reachable r \<and> sessions r code = Some (userID, itemID)
            \<and> 0 < inventory_at r (sale_of itemID) \<longrightarrow>
              status (fst (Purchase sale_of (db, r) code)) = 200
              \<and> inventory_at (snd (snd (Purchase sale_of (db, r) code))) (sale_of itemID) =
                  inventory_at r (sale_of itemID) - 1"
    by (simp add: Purchase_result inventory_at_def)
  have out: "code \<noteq> [] \<and> reachable r \<and> sessions r code = Some (userID, itemID)
            \<and> inventory_at r (sale_of itemID) - 1 < 0 \<longrightarrow>
              Purchase sale_of (db, r) code = (http_Error ''Item sold out'' 409, (db, r))"
    by (simp add: Purchase_result)
  have turns: "sum_list (map (purchased sale_of sale (sessions r))
            (fst (interleave GetCheckoutSession (DecrementInventory sale_of)
                   (arrive codes, (db, r)) schedule))) \<le> inventory_at r sale"
    by (rule concurrent_no_oversell [OF assms])
  from turns run left ok out show ?thesis by (intro conjI) linarith+
qed

text \<open>
  The theorem at the coordinator \<open>shop\<close>, three items left of the sale \<open>s1\<close>: of five
  requests at most three succeed, whether their calls are taken in turns or they are
  served one after the other; the first is answered 200 and leaves two items; with
  nothing left, a request is answered 409 and changes nothing.
\<close>

theorem C2_witness:
  "0 \<le> inventory_at shop ''s1''
   \<and> sum_list (map (purchased sale_s1 ''s1'' (sessions shop))
         (fst (interleave GetCheckoutSession (DecrementInventory sale_s1)
                (arrive [''K1'', ''K2'', ''K1'', ''K2'', ''K1''], ([], shop))
                [0, 1, 2, 3, 4, 0, 1, 2, 3, 4, 0, 1, 2, 3, 4]))) \<le> 3
   \<and> int (sold sale_s1 ''s1'' ([], shop) [''K1'', ''K2'', ''K1'', ''K2'', ''K1'']) \<le> 3
   \<and> inventory_at (snd (snd (serve sale_s1 ([], shop) [''K1'', ''K2'', ''K1'', ''K2'', ''K1'']))) ''s1''
       = 3 - int (sold sale_s1 ''s1'' ([], shop) [''K1'', ''K2'', ''K1'', ''K2'', ''K1''])
   \<and> status (fst (Purchase sale_s1 ([], shop) ''K1'')) = 200
   \<and> inventory_at (snd (snd (Purchase sale_s1 ([], shop) ''K1''))) ''s1'' = 2
   \<and> Purchase sale_s1 ([], shop\<lparr>inventory := [''s1'' \<mapsto> 0]\<rparr>) ''K2''
       = (http_Error ''Item sold out'' 409, ([], shop\<lparr>inventory := [''s1'' \<mapsto> 0]\<rparr>))"
  using C2_no_oversell [where r = shop and sale = "''s1''" and sale_of = sale_s1
      and db = "[]" and codes = "[''K1'', ''K2'', ''K1'', ''K2'', ''K1'']" and code = "''K1''"
      and userID = "''u1''" and itemID = "''I1''"
      and schedule = "[0, 1, 2, 3, 4, 0, 1, 2, 3, 4, 0, 1, 2, 3, 4]"]
    C2_no_oversell [where r = "shop\<lparr>inventory := [''s1'' \<mapsto> 0]\<rparr>" and sale = "''s1''"
      and sale_of = sale_s1 and db = "[]" and codes = "[]" and code = "''K2''"
      and userID = "''u2''" and itemID = "''I2''"]
  by (simp add: shop_def sale_s1_def inventory_at_def)

text \<open>
  Claim C1 (the redemption is one indivisible step in the coordinator). The handler
  reaches the coordinator in two separate calls, \<^verbatim>\<open>GetCheckoutSession\<close> and then
  \<^verbatim>\<open>DecrementInventory\<close>, and makes no other: on a coordinator that records its calls, a
  purchase that succeeds leaves exactly these two, with no cap check and no deletion of
  the session among them.
\<close>

theorem C1_two_coordinator_calls:
  "PurchaseHandler traced_getSession traced_decrInventory ([], []) ''K1'' =
     (\<lparr>status = 200, content_type = ''application/json'',
       body = PurchaseJSON True ''purchase_a1b2c3d4e5f6g7h8'' ''Purchase completed successfully''\<rparr>,
      ([], [Call_GetCheckoutSession ''K1'', Call_DecrementInventory ''I1'']))"
  by (simp add: PurchaseHandler_def traced_getSession_def traced_decrInventory_def
      recordPurchase_def)

text \<open>
  Claim C3 (a checkout code is redeemed at most once). No purchase request deletes a
  session, and the same code is redeemed twice: two requests with the code \<open>K1\<close>, one
  after the other, are both answered 200, two items are taken from the inventory, and
  the session of \<open>K1\<close> is still there. Two simultaneous requests with the code, their
  calls taken in turns, are both answered 200 as well.
\<close>

theorem C3_code_redeemed_twice:
  "sessions (snd (snd (Purchase sale_of (db, r) code))) = sessions r
   \<and> map status (fst (serve sale_s1 ([], shop) [''K1'', ''K1''])) = [200, 200]
   \<and> inventory_at (snd (snd (serve sale_s1 ([], shop) [''K1'', ''K1'']))) ''s1'' = 1
   \<and> sessions (snd (snd (serve sale_s1 ([], shop) [''K1'', ''K1'']))) ''K1''
       = Some (''u1'', ''I1'')
   \<and> map (purchased sale_s1 ''s1'' (sessions shop))
         (fst (interleave GetCheckoutSession (DecrementInventory sale_s1)
                (arrive [''K1'', ''K1''], ([], shop)) [0, 1, 0, 1, 0, 1])) = [1, 1]"
proof -
  have "map status (fst (serve sale_s1 ([], shop) [''K1'', ''K1''])) = [200, 200]
      \<and> inventory_at (snd (snd (serve sale_s1 ([], shop) [''K1'', ''K1'']))) ''s1'' = 1
      \<and> sessions (snd (snd (serve sale_s1 ([], shop) [''K1'', ''K1'']))) ''K1''
          = Some (''u1'', ''I1'')"
    by (simp add: shop_def sale_s1_def purchase_defs)
  moreover have "map (purchased sale_s1 ''s1'' (sessions shop))
         (fst (interleave GetCheckoutSession (DecrementInventory sale_s1)
                (arrive [''K1'', ''K1''], ([], shop)) [0, 1, 0, 1, 0, 1])) = [1, 1]"
    by (simp add: shop_def sale_s1_def arrive_def handler_enter_def handler_step_def
        purchased_def in_sale_def GetCheckoutSession_def DecrementInventory_def
        recordPurchase_def inventory_at_def)
  ultimately show ?thesis by (simp add: Purchase_frame)
qed

text \<open>
  Claim C4 (a purchase of a user at the cap is refused with UserLimitExceeded). The
  handler has no answer 403 and does not read or write the per-user counter: for the
  user \<open>u1\<close>, whose counter for the sale \<open>s1\<close> is 10, the purchase is answered 200, an
  item is taken from the inventory, and the counter still reads 10.
\<close>

theorem C4_purchase_over_user_cap:
  "status (fst (PurchaseHandler getSession decrInventory st code)) \<noteq> 403
   \<and> user_count (snd (snd (Purchase sale_of (db, r) code))) = user_count r
   \<and> user_count_at shop ''s1'' ''u1'' = 10
   \<and> sessions shop ''K1'' = Some (''u1'', ''I1'')
   \<and> status (fst (Purchase sale_s1 ([], shop) ''K1'')) = 200
   \<and> inventory_at (snd (snd (Purchase sale_s1 ([], shop) ''K1''))) ''s1'' = 2
   \<and> user_count_at (snd (snd (Purchase sale_s1 ([], shop) ''K1''))) ''s1'' ''u1'' = 10"
proof -
  have "status (fst (PurchaseHandler getSession decrInventory st code)) \<noteq> 403"
    by (simp add: PurchaseHandler_def http_Error_def recordPurchase_def
        split: prod.splits sum.splits)
  moreover have "user_count (snd (snd (Purchase sale_of (db, r) code))) = user_count r"
    by (rule Purchase_frame)
  moreover have "user_count_at shop ''s1'' ''u1'' = 10
      \<and> sessions shop ''K1'' = Some (''u1'', ''I1'')
      \<and> status (fst (Purchase sale_s1 ([], shop) ''K1'')) = 200
      \<and> inventory_at (snd (snd (Purchase sale_s1 ([], shop) ''K1''))) ''s1'' = 2
      \<and> user_count_at (snd (snd (Purchase sale_s1 ([], shop) ''K1''))) ''s1'' ''u1'' = 10"
    by (simp add: shop_def sale_s1_def purchase_defs)
  ultimately show ?thesis by simp
qed

text \<open>
  Claim C5 (a purchase that succeeds inserts a row with a fresh, unique id).
  \<^verbatim>\<open>recordPurchase\<close> returns the same id for every purchase and leaves the database as
  it was: two purchases with different codes, of different users and items, are both
  answered with the id \<^verbatim>\<open>purchase_a1b2c3d4e5f6g7h8\<close>, and the table of purchases is empty
  afterwards.
\<close>

theorem C5_placeholder_record:
  "recordPurchase db userID itemID = (Inr ''purchase_a1b2c3d4e5f6g7h8'', db)
   \<and> map body (fst (serve sale_s1 ([], shop) [''K1'', ''K2''])) =
       [PurchaseJSON True ''purchase_a1b2c3d4e5f6g7h8'' ''Purchase completed successfully'',
        PurchaseJSON True ''purchase_a1b2c3d4e5f6g7h8'' ''Purchase completed successfully'']
   \<and> fst (snd (serve sale_s1 ([], shop) [''K1'', ''K2''])) = []"
  by (simp add: shop_def sale_s1_def purchase_defs)

section \<open>Properties of the scheduler\<close>

lemma Truncate_Hour: "Truncate now Hour = now - now mod Hour"
  by (simp add: Truncate_def Hour_def Second_def)

lemma Truncate_Hour_bounds:
  "Truncate now Hour \<le> now" "now < Truncate now Hour + Hour" "Truncate now Hour mod Hour = 0"
proof -
  have pos: "0 < Hour" by (simp add: Hour_def Second_def)
  show "Truncate now Hour \<le> now" using pos by (simp add: Truncate_Hour)
  show "now < Truncate now Hour + Hour"
    using pos_mod_bound [OF pos, of now] by (simp add: Truncate_Hour)
  show "Truncate now Hour mod Hour = 0"
    by (simp add: Truncate_Hour minus_mod_eq_mult_div)
qed

text \<open>
  Every sale either \<^verbatim>\<open>createNewSale\<close> creates is aligned to the hour that holds its clock
  reading: it starts at a multiple of an hour not after \<open>now\<close>, ends one hour later and
  after \<open>now\<close>, and offers \<^verbatim>\<open>ItemsPerSale\<close> items (10000 in the second function). A sale is
  added when the id was generated and the insert did not fail.
\<close>

lemma createNewSale_window_aligned:
  "StartTime (new_sale ItemsPerSale saleID now) = now - now mod Hour
   \<and> StartTime (new_sale ItemsPerSale saleID now) mod Hour = 0
   \<and> StartTime (new_sale ItemsPerSale saleID now) \<le> now
   \<and> now < EndTime (new_sale ItemsPerSale saleID now)
   \<and> EndTime (new_sale ItemsPerSale saleID now) = StartTime (new_sale ItemsPerSale saleID now) + Hour
   \<and> TotalItems (new_sale ItemsPerSale saleID now) = ItemsPerSale
   \<and> snd (createNewSale ItemsPerSale calls now sales) =
       (case (generateSaleID calls, CreateSale calls) of
          (Inr saleID', None) \<Rightarrow> sales @ [new_sale ItemsPerSale saleID' now]
        | _ \<Rightarrow> sales)
   \<and> createNewSale_db exec_err now rows =
       (case exec_err of
          None \<Rightarrow> rows @ [\<lparr>start_time = now - now mod Hour,
                            end_time = now - now mod Hour + Hour, total_items = 10000\<rparr>]
        | Some err \<Rightarrow> rows)"
  using Truncate_Hour_bounds [of now]
  by (simp add: new_sale_def createNewSale_def createNewSale_db_def Let_def Truncate_Hour
      split: sum.splits option.splits)

lemma waitUntilNextHour_eq: "waitUntilNextHour now = Truncate now Hour + Hour - now"
proof -
  have "0 < Truncate now Hour + Hour - now" "Truncate now Hour + Hour - now \<le> Hour"
    using Truncate_Hour_bounds [of now] by auto
  then show ?thesis by (simp add: waitUntilNextHour_def Sub_def Hour_def Second_def)
qed

lemma ticks_later: "0 < d \<Longrightarrow> x \<in> set (ticks t d n) \<Longrightarrow> t < x"
proof (induction n arbitrary: t)
  case 0
  then show ?case by simp
next
  case (Suc n)
  then show ?case by fastforce
qed

text \<open>
  Claim C7 (a new sale is created at each window boundary). \<^verbatim>\<open>Scheduler.Start\<close> never
  calls \<^verbatim>\<open>createNewSale\<close> at the first hour boundary after it is entered: it waits for
  that boundary and only then makes the hourly ticker, whose first tick is an hour
  later. Entered at 10:30 with no active sale, it creates sales at 10:30, 12:00, 13:00
  and 14:00, for the windows from 10:00, 12:00, 13:00 and 14:00: the window from 11:00
  to 12:00 gets no sale. \<^verbatim>\<open>StartScheduler\<close>, entered at 10:30, creates its sales at
  11:30, 12:30 and 13:30, half an hour after each boundary. (Times in seconds since the
  zero time: 10:30 is 37800.)
\<close>

theorem C7_first_boundary_without_sale:
  "Truncate t0 Hour + Hour \<notin> set (Start_creations activeSale initial t0 n)
   \<and> Start_creations (Inr False) None (37800 * Second) 3 =
        [37800 * Second, 43200 * Second, 46800 * Second, 50400 * Second]
   \<and> map sale_window (Start_creations (Inr False) None (37800 * Second) 3) =
        [(36000 * Second, 39600 * Second), (43200 * Second, 46800 * Second),
         (46800 * Second, 50400 * Second), (50400 * Second, 54000 * Second)]
   \<and> StartScheduler_creations (37800 * Second) 3 =
        [41400 * Second, 45000 * Second, 48600 * Second]"
proof (intro conjI)
  have pos: "0 < Hour" by (simp add: Hour_def Second_def)
  let ?b = "Truncate t0 Hour + Hour"
  have w: "t0 + waitUntilNextHour t0 = ?b" by (simp add: waitUntilNextHour_eq)
  have a: "?b \<notin> set (ticks ?b Hour n)" using ticks_later [OF pos, of ?b ?b n] by auto
  have b: "?b \<noteq> t0" using Truncate_Hour_bounds(2) [of t0] by simp
  show "?b \<notin> set (Start_creations activeSale initial t0 n)"
  proof (cases activeSale)
    case (Inl err)
    then show ?thesis by (simp add: Start_creations_def)
  next
    case (Inr active)
    show ?thesis
    proof (cases active)
      case True
      with Inr a show ?thesis by (simp add: Start_creations_def w)
    next
      case False
      with Inr a b show ?thesis
        by (cases initial) (simp_all add: Start_creations_def w)
    qed
  qed
  show "Start_creations (Inr False) None (37800 * Second) 3 =
        [37800 * Second, 43200 * Second, 46800 * Second, 50400 * Second]"
    by (simp add: Start_creations_def waitUntilNextHour_def Truncate_def Sub_def Hour_def
        Second_def numeral_3_eq_3)
  then show "map sale_window (Start_creations (Inr False) None (37800 * Second) 3) =
        [(36000 * Second, 39600 * Second), (43200 * Second, 46800 * Second),
         (46800 * Second, 50400 * Second), (50400 * Second, 54000 * Second)]"
    by (simp add: sale_window_def Truncate_def Hour_def Second_def)
  show "StartScheduler_creations (37800 * Second) 3 =
        [41400 * Second, 45000 * Second, 48600 * Second]"
    by (simp add: StartScheduler_creations_def Hour_def Second_def numeral_3_eq_3)
qed

end
